theory Spec2Isabelle
  imports Main "HOL-Library.Sublist" "HOL-Library.Extended_Nat"
begin

section \<open>Texts\<close>

text \<open>
  The program is \<^verbatim>\<open>xelm.ts\<close>. The sources hold two revisions of it: \<^verbatim>\<open>src/xelm.ts\<close>, and a
  later one that follows the nix expression in \<^verbatim>\<open>src/shell.nix\<close>. Definitions taken from the
  later revision carry the names of the source; where the revision in \<^verbatim>\<open>src/xelm.ts\<close>
  differs and is needed, its definition carries the suffix \<open>_ts\<close>. An older revision
  among the sources without a name, which renders the replacements with a template
  engine, is not taken up.

  A text is a \<^typ>\<open>string\<close>: a list of code units, of which the model has the first 256.
  The functions of this section are the methods of JavaScript strings that the program
  calls, written out for these texts.
\<close>

abbreviation TAB :: char where "TAB \<equiv> CHR 0x09"
abbreviation LF :: char where "LF \<equiv> CHR 0x0A"
abbreviation CR :: char where "CR \<equiv> CHR 0x0D"
abbreviation BACKSLASH :: char where "BACKSLASH \<equiv> CHR 0x5C"

definition is_line_terminator :: "char \<Rightarrow> bool" where
  \<comment> \<open>the line terminators of ECMAScript below U+0100\<close>
  "is_line_terminator c \<longleftrightarrow> c = LF \<or> c = CR"

definition is_space :: "char \<Rightarrow> bool" where
  \<comment> \<open>the class \<^verbatim>\<open>\s\<close>, and what \<^verbatim>\<open>trim\<close> removes: TAB, LF, VT, FF, CR, SP, NBSP\<close>
  "is_space c \<longleftrightarrow> c \<in> {CHR 0x09, CHR 0x0A, CHR 0x0B, CHR 0x0C, CHR 0x0D, CHR 0x20, CHR 0xA0}"

definition trim :: "string \<Rightarrow> string" where
  "trim s = rev (dropWhile is_space (rev (dropWhile is_space s)))"

fun join :: "'a list \<Rightarrow> 'a list list \<Rightarrow> 'a list" where
  \<comment> \<open>\<^verbatim>\<open>xs.join(sep)\<close>\<close>
  "join sep [] = []"
| "join sep [x] = x"
| "join sep (x # y # ys) = x @ sep @ join sep (y # ys)"

fun split_on :: "char \<Rightarrow> string \<Rightarrow> string list" where
  \<comment> \<open>\<^verbatim>\<open>s.split(sep)\<close> for a separator of one character; the result is never empty\<close>
  "split_on sep [] = [[]]"
| "split_on sep (c # cs) =
     (if c = sep then [] # split_on sep cs
      else (case split_on sep cs of [] \<Rightarrow> [[c]] | x # xs \<Rightarrow> (c # x) # xs))"

function split_ws :: "string \<Rightarrow> string list" where
  \<comment> \<open>\<^verbatim>\<open>s.split(/\s+/)\<close>\<close>
  "split_ws [] = [[]]"
| "split_ws (c # cs) =
     (if is_space c then [] # split_ws (dropWhile is_space cs)
      else (case split_ws cs of [] \<Rightarrow> [[c]] | x # xs \<Rightarrow> (c # x) # xs))"
  by pat_completeness auto
termination
  by (relation "measure length") (auto simp: length_dropWhile_le less_Suc_eq_le)

fun nth_opt :: "'a list \<Rightarrow> nat \<Rightarrow> 'a option" where
  \<comment> \<open>reading an array at an index: \<^verbatim>\<open>undefined\<close> out of range\<close>
  "nth_opt [] n = None"
| "nth_opt (x # xs) 0 = Some x"
| "nth_opt (x # xs) (Suc n) = nth_opt xs n"

fun replace_first :: "string \<Rightarrow> string \<Rightarrow> string \<Rightarrow> string" where
  \<comment> \<open>\<^verbatim>\<open>s.replace(pat, rep)\<close> for a text \<open>pat\<close> and a \<open>rep\<close> without \<^verbatim>\<open>$\<close>: the first occurrence\<close>
  "replace_first pat rep [] = (if pat = [] then rep else [])"
| "replace_first pat rep (c # cs) =
     (if prefix pat (c # cs) then rep @ drop (length pat) (c # cs)
      else c # replace_first pat rep cs)"

function replaceAll_text :: "string \<Rightarrow> string \<Rightarrow> string \<Rightarrow> string" where
  \<comment> \<open>\<^verbatim>\<open>s.replaceAll(pat, rep)\<close> for a text \<open>pat\<close> and a \<open>rep\<close> without \<^verbatim>\<open>$\<close>: every
      occurrence, from the left, none overlapping another; an empty \<open>pat\<close> matches at
      every position\<close>
  "replaceAll_text pat rep s =
     (if pat = [] then rep @ concat (map (\<lambda>c. c # rep) s)
      else if prefix pat s then rep @ replaceAll_text pat rep (drop (length pat) s)
      else (case s of [] \<Rightarrow> [] | c # cs \<Rightarrow> c # replaceAll_text pat rep cs))"
  by pat_completeness auto
termination
  by (relation "measure (\<lambda>(pat, rep, s). length s)") (auto simp: prefix_def)

declare replaceAll_text.simps [simp del]

section \<open>The conditional preprocessor\<close>

record Transform =
  find :: string
  replace :: string

text \<open>
  \<^verbatim>\<open>PostConfig\<close>: of its fields, the functions below read \<^verbatim>\<open>debug\<close>, \<^verbatim>\<open>test\<close> and
  \<^verbatim>\<open>transformations\<close>.
\<close>

record PostConfig =
  debug :: bool
  test :: bool
  transformations :: "Transform list"

definition vars :: "string list" where
  "vars = [''debug'', ''test'']"

definition includes_flag :: "string list \<Rightarrow> string option \<Rightarrow> bool" where
  \<comment> \<open>\<^verbatim>\<open>vars.includes(flag)\<close>, where \<open>flag\<close> may be \<^verbatim>\<open>undefined\<close>\<close>
  "includes_flag xs flag = (case flag of None \<Rightarrow> False | Some f \<Rightarrow> f \<in> set xs)"

definition as_Flags :: "string option \<Rightarrow> string" where
  \<comment> \<open>the cast \<^verbatim>\<open>flag as Flags\<close>; it is applied after \<open>includes_flag\<close> has said yes\<close>
  "as_Flags flag = (case flag of None \<Rightarrow> [] | Some f \<Rightarrow> f)"

definition config_flag :: "PostConfig \<Rightarrow> string \<Rightarrow> bool" where
  \<comment> \<open>\<^verbatim>\<open>config[flag] ?? false\<close> for the names in \<open>vars\<close>\<close>
  "config_flag config flag =
     (if flag = ''debug'' then debug config else if flag = ''test'' then test config else False)"

datatype marker = Push string bool | Pop | Content

definition marker_of :: "string \<Rightarrow> marker" where
  \<comment> \<open>the test at the head of the loop of \<^verbatim>\<open>preprocess\<close>: what the line does to the stack\<close>
  "marker_of line =
     (let ws = split_ws (trim line);
          comment = nth_opt ws 0; cond = nth_opt ws 1; flag = nth_opt ws 2
      in if comment = Some ''//'' then
           (if cond = Some ''@IF'' \<and> includes_flag vars flag then Push (as_Flags flag) True
            else if cond = Some ''@UNLESS'' \<and> includes_flag vars flag then Push (as_Flags flag) False
            else if cond = Some ''@END'' then Pop
            else Content)
         else Content)"

definition holds :: "PostConfig \<Rightarrow> (string \<times> bool) list \<Rightarrow> bool" where
  \<comment> \<open>no entry of the stack makes the loop skip the line\<close>
  "holds config stack = list_all (\<lambda>(flag, cond). cond = config_flag config flag) stack"

definition emit :: "nat \<Rightarrow> string \<Rightarrow> string" where
  \<comment> \<open>\<^verbatim>\<open>stack.length === 0 ? line : line.replace("\t".repeat(stack.length), "")\<close>\<close>
  "emit n line = (if n = 0 then line else replace_first (replicate n TAB) [] line)"

fun preprocess_loop ::
  "PostConfig \<Rightarrow> (string \<times> bool) list \<Rightarrow> string list \<Rightarrow> string list \<Rightarrow> string list" where
  \<comment> \<open>the loop over the lines, with the stack and the lines pushed so far;
      \<^verbatim>\<open>stack.pop()\<close> on an empty stack does nothing\<close>
  "preprocess_loop config stack lines [] = lines"
| "preprocess_loop config stack lines (line # rest) =
     (case marker_of line of
        Push flag cond \<Rightarrow> preprocess_loop config (stack @ [(flag, cond)]) lines rest
      | Pop \<Rightarrow> preprocess_loop config (butlast stack) lines rest
      | Content \<Rightarrow>
          (if \<not> holds config stack then preprocess_loop config stack lines rest
           else preprocess_loop config stack (lines @ [emit (length stack) line]) rest))"

definition preprocess :: "string \<Rightarrow> PostConfig \<Rightarrow> string" where
  "preprocess content config = join [LF] (preprocess_loop config [] [] (split_on LF content))"


section \<open>Regular expressions built at run time\<close>

text \<open>
  The program builds two regular expressions from texts: the alternation of
  \<^verbatim>\<open>transform\<close> and the namespace of \<^verbatim>\<open>getNamespace\<close>, both with the flags \<^verbatim>\<open>gm\<close>. The
  model reads the source of such an expression as ECMAScript does, for the fragment these
  two live in: characters that stand for themselves, a backslash before a syntax
  character or a slash (the character itself), the bar between alternatives, and one
  group around the whole. A source outside the fragment has no reading here, and
  replacing with it is the error \<open>Unsupported_RegExp\<close>; \<open>transform_eq\<close> and
  \<open>getNamespace_alternatives\<close> show that the program never builds one.
\<close>

datatype error =
    Not_found_elm_json string     \<comment> \<open>Could not find 'elm.json' at ...\<close>
  | Undefined_elm_version         \<comment> \<open>Undefined "elm-version" field in 'elm.json'\<close>
  | Unexpected_code_block "string option"  \<comment> \<open>Unexpected '...' code block\<close>
  | Unmatched_pattern string      \<comment> \<open>Unmatched find-and-replace transformation pattern\<close>
  | No_author                     \<comment> \<open>Could not extract author name from elm.json\<close>
  | No_project                    \<comment> \<open>Could not extract project name from elm.json\<close>
  | TypeError                     \<comment> \<open>\<^verbatim>\<open>path.join\<close> on \<^verbatim>\<open>undefined\<close>\<close>
  | NotFound string               \<comment> \<open>reading a file that does not exist\<close>
  | Misread string                \<comment> \<open>reading a file that holds another kind of content\<close>
  | Unsupported_RegExp string     \<comment> \<open>a regular expression outside the fragment of the model\<close>

datatype re_token = Lit char | Bar | Open | Close | Meta

definition syntax_character :: "char \<Rightarrow> bool" where
  \<comment> \<open>SyntaxCharacter of ECMAScript\<close>
  "syntax_character c \<longleftrightarrow> c \<in> set (''^$.*+?()[]{}|'' @ [BACKSLASH])"

definition re_plain :: "char \<Rightarrow> re_token" where
  \<comment> \<open>a character that no backslash precedes\<close>
  "re_plain c =
     (if c = CHR ''|'' then Bar else if c = CHR ''('' then Open else if c = CHR '')'' then Close
      else if syntax_character c then Meta else Lit c)"

definition re_escaped :: "char \<Rightarrow> re_token" where
  \<comment> \<open>a character after a backslash: itself, when it is a syntax character or a slash\<close>
  "re_escaped c = (if syntax_character c \<or> c = CHR ''/'' then Lit c else Meta)"

fun re_tokens :: "string \<Rightarrow> re_token list" where
  "re_tokens [] = []"
| "re_tokens [c] = [if c = BACKSLASH then Meta else re_plain c]"
| "re_tokens (c # d # cs) =
     (if c = BACKSLASH then re_escaped d # re_tokens cs else re_plain c # re_tokens (d # cs))"

fun literal_alternatives :: "re_token list \<Rightarrow> string list option" where
  \<comment> \<open>the texts of a disjunction of literal texts, in order\<close>
  "literal_alternatives [] = Some [[]]"
| "literal_alternatives (Lit c # ts) =
     (case literal_alternatives ts of
        Some (a # as) \<Rightarrow> Some ((c # a) # as)
      | _ \<Rightarrow> None)"
| "literal_alternatives (Bar # ts) =
     (case literal_alternatives ts of Some as \<Rightarrow> Some ([] # as) | None \<Rightarrow> None)"
| "literal_alternatives (_ # ts) = None"

datatype RegExp = RegExp (source: string)

definition alternatives :: "RegExp \<Rightarrow> string list option" where
  "alternatives regexp =
     (case re_tokens (source regexp) of
        Open # ts \<Rightarrow>
          (if ts \<noteq> [] \<and> last ts = Close then literal_alternatives (butlast ts) else None)
      | ts \<Rightarrow> literal_alternatives ts)"

function replace_matches :: "string list \<Rightarrow> (string \<Rightarrow> string) \<Rightarrow> string \<Rightarrow> string" where
  \<comment> \<open>the global replacement: at each position the first alternative that matches there
      is replaced by what the function returns for it, and the scan goes on behind the
      match; behind an empty match it goes on one character further\<close>
  "replace_matches alts f s =
     (case List.find (\<lambda>a. prefix a s) alts of
        None \<Rightarrow> (case s of [] \<Rightarrow> [] | c # cs \<Rightarrow> c # replace_matches alts f cs)
      | Some a \<Rightarrow>
          (if a = [] then f [] @ (case s of [] \<Rightarrow> [] | c # cs \<Rightarrow> c # replace_matches alts f cs)
           else f a @ replace_matches alts f (drop (length a) s)))"
  by pat_completeness auto
termination
proof (relation "measure (\<lambda>(alts, f, s). length s)", goal_cases)
  case 1
  show ?case by simp
next
  case (2 alts f s c cs)
  then show ?case by simp
next
  case (3 alts f s a c cs)
  then show ?case by simp
next
  case (4 alts f s a)
  from 4(1) have "prefix a s"
    by (auto simp: find_Some_iff)
  with 4(2) show ?case
    by (cases s) auto
qed

declare replace_matches.simps [simp del]

definition replaceAll_RegExp :: "RegExp \<Rightarrow> (string \<Rightarrow> string) \<Rightarrow> string \<Rightarrow> error + string" where
  \<comment> \<open>\<^verbatim>\<open>s.replaceAll(regexp, f)\<close>\<close>
  "replaceAll_RegExp regexp f s =
     (case alternatives regexp of
        None \<Rightarrow> Inl (Unsupported_RegExp (source regexp))
      | Some alts \<Rightarrow> Inr (replace_matches alts f s))"

section \<open>Applying the rules\<close>

fun escapeRegExp :: "string \<Rightarrow> string" where
  \<comment> \<open>\<^verbatim>\<open>text.replace(/[.*+?^${}()|[\]\\\/]/g, "\\$&")\<close>\<close>
  "escapeRegExp [] = []"
| "escapeRegExp (c # cs) =
     (if c \<in> set (''.*+?^${}()|[]/'' @ [BACKSLASH]) then BACKSLASH # c # escapeRegExp cs
      else c # escapeRegExp cs)"

function spacesToTabs_from :: "string \<Rightarrow> bool \<Rightarrow> string \<Rightarrow> string" where
  \<comment> \<open>the scan of \<^verbatim>\<open>/^\s+/gm\<close>: the flag says whether the position starts a line; behind a
      run of white space the next character is no white space, so nothing matches there\<close>
  "spacesToTabs_from spaces bol [] = []"
| "spacesToTabs_from spaces bol (c # cs) =
     (if bol \<and> is_space c
      then replaceAll_text spaces [TAB] (c # takeWhile is_space cs) @
           spacesToTabs_from spaces False (dropWhile is_space cs)
      else c # spacesToTabs_from spaces (is_line_terminator c) cs)"
  by pat_completeness auto
termination
  by (relation "measure (\<lambda>(spaces, bol, s). length s)")
    (auto simp: length_dropWhile_le less_Suc_eq_le)

definition spacesToTabs :: "string \<Rightarrow> string \<Rightarrow> string" where
  \<comment> \<open>\<^verbatim>\<open>content.replace(/^\s+/gm, (match) => match.replaceAll(spaces, "\t"))\<close>; the
      default of \<open>spaces\<close> is two blanks\<close>
  "spacesToTabs content spaces = spacesToTabs_from spaces True content"

definition map_set :: "(string \<rightharpoonup> string) \<Rightarrow> string \<Rightarrow> string \<Rightarrow> (string \<rightharpoonup> string)" where
  \<comment> \<open>\<^verbatim>\<open>map[key] = value\<close> on an object literal: the key \<^verbatim>\<open>__proto__\<close> is the accessor of
      \<^verbatim>\<open>Object.prototype\<close>, whose setter ignores a string\<close>
  "map_set m key v = (if key = ''__proto__'' then m else m(key \<mapsto> v))"

definition map_get :: "(string \<rightharpoonup> string) \<Rightarrow> string \<Rightarrow> string option" where
  \<comment> \<open>\<^verbatim>\<open>map[key]\<close> as a replacement text; \<^verbatim>\<open>map["__proto__"]\<close> is the prototype object, which
      \<^verbatim>\<open>replaceAll\<close> turns into a text\<close>
  "map_get m key = (if key = ''__proto__'' then Some ''[object Object]'' else m key)"

fun transform_loop ::
  "PostConfig \<Rightarrow> (string \<rightharpoonup> string) \<Rightarrow> string list \<Rightarrow> Transform list \<Rightarrow>
   (string \<rightharpoonup> string) \<times> string list" where
  "transform_loop config m patterns [] = (m, patterns)"
| "transform_loop config m patterns (t # ts) =
     (let fmt = spacesToTabs (find t) ''  ''
      in transform_loop config
           (map_set m fmt (preprocess (spacesToTabs (replace t) ''  '') config))
           (patterns @ [escapeRegExp fmt]) ts)"

definition transform :: "string \<Rightarrow> PostConfig \<Rightarrow> error + string" where
  "transform content config =
     (case transform_loop config Map.empty [] (transformations config) of
        (m, patterns) \<Rightarrow>
          replaceAll_RegExp (RegExp (''('' @ join ''|'' patterns @ '')''))
            (\<lambda>substring. case map_get m substring of None \<Rightarrow> substring | Some r \<Rightarrow> r)
            content)"

section \<open>The namespace\<close>

definition escapeVar :: "string \<Rightarrow> string" where
  \<comment> \<open>\<^verbatim>\<open>name.replace(/\-/gm, "_")\<close>\<close>
  "escapeVar name = map (\<lambda>c. if c = CHR ''-'' then CHR ''_'' else c) name"

definition getNamespace :: "string \<Rightarrow> error + RegExp" where
  "getNamespace name =
     (let parts = split_on CHR ''/'' (escapeVar name)
      in case nth_opt parts 0 of
           None \<Rightarrow> Inl No_author
         | Some author \<Rightarrow>
             (case nth_opt parts 1 of
                None \<Rightarrow> Inl No_project
              | Some project \<Rightarrow>
                  (let authorPart = escapeRegExp (escapeVar author);
                       projectPart = escapeRegExp (escapeVar project)
                   in Inr (RegExp ([BACKSLASH] @ ''$'' @ authorPart @ [BACKSLASH] @ ''$'' @
                                   projectPart @ [BACKSLASH] @ ''$'')))))"

definition rewrite_namespace :: "RegExp option \<Rightarrow> string \<Rightarrow> error + string" where
  \<comment> \<open>\<^verbatim>\<open>regExp ? token.text.replaceAll(regExp, "$author$project$") : token.text\<close>; no \<^verbatim>\<open>$\<close> of
      the replacement starts a pattern of replacement\<close>
  "rewrite_namespace regExp text =
     (case regExp of
        None \<Rightarrow> Inr text
      | Some r \<Rightarrow> replaceAll_RegExp r (\<lambda>_. ''$author$project$'') text)"


section \<open>Files\<close>

text \<open>
  \<^verbatim>\<open>marked.lexer\<close> and \<^verbatim>\<open>JSON.parse\<close> are not part of the program. A file of the model
  holds what its reader makes of its text: the block tokens of a documentation file, the
  object of a manifest, the rules of a cache artifact. Of a token the model keeps what
  \<^verbatim>\<open>extractReadme\<close> looks at. Reading a file as another kind than it holds is the error
  \<open>Misread\<close>. There are no directories: a write succeeds, and stamps the file with the
  clock. Where a variable of the source has the name of a field of a record of the model,
  the variable carries a prime.
\<close>

datatype inline = Link string | Inline

datatype token =
    Heading nat                    \<comment> \<open>\<^verbatim>\<open>type: "heading"\<close>, with \<^verbatim>\<open>depth\<close>\<close>
  | Paragraph "inline list"        \<comment> \<open>\<^verbatim>\<open>type: "paragraph"\<close>, with \<^verbatim>\<open>tokens\<close>; \<open>Link\<close> carries \<^verbatim>\<open>href\<close>\<close>
  | Code "string option" string    \<comment> \<open>\<^verbatim>\<open>type: "code"\<close>, with \<^verbatim>\<open>lang\<close> and \<^verbatim>\<open>text\<close>\<close>
  | Block                          \<comment> \<open>any other token\<close>

record Dependencies =
  direct :: "(string \<times> string) list option"
  indirect :: "(string \<times> string) list option"

record ElmJson =
  name :: "string option"
  elm_version :: "string option"
  dependencies :: "Dependencies option"
  test_dependencies :: "Dependencies option"

datatype content = Markdown "token list" | Manifest ElmJson | Rules "Transform list"

record File =
  mtime :: "nat option"
  data :: content

record System =
  files :: "string \<rightharpoonup> File"
  clock :: nat

definition exists_file :: "System \<Rightarrow> string \<Rightarrow> bool" where
  \<comment> \<open>\<^verbatim>\<open>fs.exists(path)\<close>\<close>
  "exists_file sys path \<longleftrightarrow> files sys path \<noteq> None"

definition read_markdown :: "System \<Rightarrow> string \<Rightarrow> error + token list" where
  \<comment> \<open>\<^verbatim>\<open>marked.lexer(await Deno.readTextFile(path))\<close>\<close>
  "read_markdown sys path =
     (case files sys path of
        None \<Rightarrow> Inl (NotFound path)
      | Some f \<Rightarrow> (case data f of Markdown ts \<Rightarrow> Inr ts | _ \<Rightarrow> Inl (Misread path)))"

definition read_manifest :: "System \<Rightarrow> string \<Rightarrow> error + ElmJson" where
  \<comment> \<open>\<^verbatim>\<open>JSON.parse(await Deno.readTextFile(path))\<close>, as a manifest\<close>
  "read_manifest sys path =
     (case files sys path of
        None \<Rightarrow> Inl (NotFound path)
      | Some f \<Rightarrow> (case data f of Manifest j \<Rightarrow> Inr j | _ \<Rightarrow> Inl (Misread path)))"

definition read_rules :: "System \<Rightarrow> string \<Rightarrow> error + Transform list" where
  \<comment> \<open>\<^verbatim>\<open>JSON.parse(await Deno.readTextFile(path))\<close>, as an array of rules\<close>
  "read_rules sys path =
     (case files sys path of
        None \<Rightarrow> Inl (NotFound path)
      | Some f \<Rightarrow> (case data f of Rules ts \<Rightarrow> Inr ts | _ \<Rightarrow> Inl (Misread path)))"

definition write_rules :: "System \<Rightarrow> string \<Rightarrow> Transform list \<Rightarrow> System" where
  \<comment> \<open>\<^verbatim>\<open>Deno.writeTextFile(path, JSON.stringify(transformations))\<close>\<close>
  "write_rules sys path ts =
     sys\<lparr>files := (files sys)(path \<mapsto> \<lparr>mtime = Some (clock sys), data = Rules ts\<rparr>)\<rparr>"

subsection \<open>Paths\<close>

text \<open>
  \<^verbatim>\<open>path.join\<close> of the standard library of Deno, for POSIX paths: the arguments that are
  not empty are joined by slashes and the result is normalised.
\<close>

fun normalizeString :: "bool \<Rightarrow> string list \<Rightarrow> string list \<Rightarrow> string list" where
  \<comment> \<open>over the segments between the slashes, with the segments kept so far\<close>
  "normalizeString allowAboveRoot res [] = res"
| "normalizeString allowAboveRoot res (seg # segs) =
     (if seg = [] \<or> seg = ''.'' then normalizeString allowAboveRoot res segs
      else if seg = ''..'' then
        (if res \<noteq> [] \<and> last res \<noteq> ''..'' then normalizeString allowAboveRoot (butlast res) segs
         else if allowAboveRoot then normalizeString allowAboveRoot (res @ [''..'']) segs
         else normalizeString allowAboveRoot res segs)
      else normalizeString allowAboveRoot (res @ [seg]) segs)"

definition normalize :: "string \<Rightarrow> string" where
  "normalize path =
     (if path = [] then ''.''
      else
        (let isAbsolute = (hd path = CHR ''/'');
             trailingSeparator = (last path = CHR ''/'');
             p = join ''/'' (normalizeString (\<not> isAbsolute) [] (split_on CHR ''/'' path));
             p = (if p = [] \<and> \<not> isAbsolute then ''.'' else p);
             p = (if p \<noteq> [] \<and> trailingSeparator then p @ ''/'' else p)
         in if isAbsolute then ''/'' @ p else p))"

definition path_join :: "string list \<Rightarrow> string" where
  "path_join paths =
     (let joined = join ''/'' (filter (\<lambda>p. p \<noteq> []) paths)
      in if joined = [] then ''.'' else normalize joined)"

definition ELM_JSON :: string where "ELM_JSON = ''elm.json''"
definition README_MD :: string where "README_MD = ''README.md''"
definition ELM_STUFF :: string where "ELM_STUFF = ''elm-stuff''"

section \<open>Extraction\<close>

definition anchor :: string where
  "anchor = ''#98f5c378-5809-4e35-904e-d1c5c3a8154e''"

definition starts_collecting :: "token \<Rightarrow> bool" where
  \<comment> \<open>a paragraph one of whose items is a link to the anchor\<close>
  "starts_collecting token =
     (case token of Paragraph items \<Rightarrow> Link anchor \<in> set items | _ \<Rightarrow> False)"

definition stops_collecting :: "token \<Rightarrow> bool" where
  \<comment> \<open>\<^verbatim>\<open>token.type === "heading" && token.depth < 4\<close>\<close>
  "stops_collecting token = (case token of Heading depth \<Rightarrow> depth < 4 | _ \<Rightarrow> False)"

fun extractReadme_loop ::
  "RegExp option \<Rightarrow> bool \<Rightarrow> string option \<Rightarrow> Transform list \<Rightarrow> token list \<Rightarrow>
   error + (string option \<times> Transform list)" where
  \<comment> \<open>the loop over the tokens, with \<^verbatim>\<open>collect\<close>, the pending \<^verbatim>\<open>find\<close> and \<^verbatim>\<open>transforms\<close>\<close>
  "extractReadme_loop regExp collect pending transforms [] = Inr (pending, transforms)"
| "extractReadme_loop regExp collect pending transforms (token # rest) =
     (if collect \<and> stops_collecting token then Inr (pending, transforms)
      else
        (let collect = (collect \<or> starts_collecting token)
         in case token of
              Code lang text \<Rightarrow>
                (if collect then
                   (if lang \<noteq> Some ''js'' then Inl (Unexpected_code_block lang)
                    else
                      (case rewrite_namespace regExp text of
                         Inl e \<Rightarrow> Inl e
                       | Inr text \<Rightarrow>
                           (case pending of
                              Some f \<Rightarrow>
                                extractReadme_loop regExp collect None
                                  (transforms @ [\<lparr>find = f, replace = spacesToTabs text ''    ''\<rparr>])
                                  rest
                            | None \<Rightarrow>
                                extractReadme_loop regExp collect
                                  (Some (spacesToTabs text ''    '')) transforms rest)))
                 else extractReadme_loop regExp collect pending transforms rest)
            | _ \<Rightarrow> extractReadme_loop regExp collect pending transforms rest))"

definition namespace_RegExp :: "string option \<Rightarrow> error + RegExp option" where
  \<comment> \<open>\<^verbatim>\<open>namespace ? getNamespace(namespace) : undefined\<close>; the empty text is falsy\<close>
  "namespace_RegExp namespace =
     (case namespace of
        None \<Rightarrow> Inr None
      | Some n \<Rightarrow> if n = [] then Inr None else map_sum id Some (getNamespace n))"

definition extractReadme :: "System \<Rightarrow> string \<Rightarrow> string option \<Rightarrow> error + Transform list" where
  "extractReadme sys filePath namespace =
     (if \<not> exists_file sys filePath then Inr []
      else
        (case namespace_RegExp namespace of
           Inl e \<Rightarrow> Inl e
         | Inr regExp \<Rightarrow>
             (case read_markdown sys filePath of
                Inl e \<Rightarrow> Inl e
              | Inr tokens \<Rightarrow>
                  (case extractReadme_loop regExp False None [] tokens of
                     Inl e \<Rightarrow> Inl e
                   | Inr (Some f, transforms) \<Rightarrow> Inl (Unmatched_pattern f)
                   | Inr (None, transforms) \<Rightarrow> Inr transforms))))"

definition extractDependency ::
  "System \<Rightarrow> string \<Rightarrow> string \<Rightarrow> string \<Rightarrow> error + Transform list" where
  \<comment> \<open>a dependency without a slash has no name, and \<^verbatim>\<open>path.join\<close> throws on it\<close>
  "extractDependency sys dependency version directory =
     (let parts = split_on CHR ''/'' dependency
      in case (nth_opt parts 0, nth_opt parts 1) of
           (Some author, Some name') \<Rightarrow>
             extractReadme sys (path_join [directory, author, name', version, README_MD]) None
         | _ \<Rightarrow> Inl TypeError)"

definition entries :: "(string \<times> string) list option \<Rightarrow> (string \<times> string) list" where
  \<comment> \<open>\<^verbatim>\<open>Object.entries(x ?? {})\<close>\<close>
  "entries x = (case x of None \<Rightarrow> [] | Some kvs \<Rightarrow> kvs)"

definition parseElmJson ::
  "System \<Rightarrow> string \<Rightarrow> error + (string option \<times> string \<times> (string \<times> string) list)" where
  \<comment> \<open>the result is \<^verbatim>\<open>{ name, version, dependencies }\<close>\<close>
  "parseElmJson sys filePath =
     (if \<not> exists_file sys filePath then Inl (Not_found_elm_json filePath)
      else
        (case read_manifest sys filePath of
           Inl e \<Rightarrow> Inl e
         | Inr elmJson \<Rightarrow>
             (case elm_version elmJson of
                None \<Rightarrow> Inl Undefined_elm_version
              | Some version \<Rightarrow>
                  (let deps = (case dependencies elmJson of
                                 None \<Rightarrow> \<lparr>direct = None, indirect = None\<rparr>
                               | Some d \<Rightarrow> d)
                   in Inr (name elmJson, version,
                           entries (direct deps) @ entries (indirect deps))))))"

fun extract_loop ::
  "System \<Rightarrow> string \<Rightarrow> Transform list \<Rightarrow> (string \<times> string) list \<Rightarrow> error + Transform list" where
  \<comment> \<open>the loop over the dependencies, pushing their rules\<close>
  "extract_loop sys directory transformations' [] = Inr transformations'"
| "extract_loop sys directory transformations' ((dep, ver) # rest) =
     (case extractDependency sys dep ver directory of
        Inl e \<Rightarrow> Inl e
      | Inr ts \<Rightarrow> extract_loop sys directory (transformations' @ ts) rest)"

text \<open>\<^verbatim>\<open>extract\<close> of the source is \<open>extract_transformations\<close> here.\<close>

definition extract_transformations :: "System \<Rightarrow> string \<Rightarrow> string \<Rightarrow> bool \<Rightarrow> error + Transform list" where
  "extract_transformations sys projectRoot elmHome test' =
     (case parseElmJson sys (path_join [projectRoot, ELM_JSON]) of
        Inl e \<Rightarrow> Inl e
      | Inr (_, version, dependencies') \<Rightarrow>
          (let readmeFile = (if test' then path_join [projectRoot, ''..'', ''..'', README_MD]
                             else path_join [projectRoot, README_MD])
           in case (if test'
                    then map_sum id fst
                           (parseElmJson sys (path_join [projectRoot, ''..'', ''..'', ELM_JSON]))
                    else Inr None) of
                Inl e \<Rightarrow> Inl e
              | Inr name' \<Rightarrow>
                  (case extractReadme sys readmeFile name' of
                     Inl e \<Rightarrow> Inl e
                   | Inr transformations' \<Rightarrow>
                       extract_loop sys (path_join [elmHome, version, ''packages''])
                         transformations' dependencies')))"

section \<open>The cache\<close>

definition getModificationTime :: "System \<Rightarrow> string \<Rightarrow> enat \<Rightarrow> enat" where
  \<comment> \<open>the fallback stands for a file that is not there, and for one without a time\<close>
  "getModificationTime sys filePath fallback =
     (case files sys filePath of
        None \<Rightarrow> fallback
      | Some f \<Rightarrow> (case mtime f of None \<Rightarrow> fallback | Some t \<Rightarrow> enat t))"

definition isModifiedAfter :: "System \<Rightarrow> string \<Rightarrow> string \<Rightarrow> bool" where
  "isModifiedAfter sys src dest =
     (let srcTime = getModificationTime sys src \<infinity>;
          destTime = getModificationTime sys dest 0
      in srcTime > destTime)"

definition needsCacheRefresh :: "System \<Rightarrow> string \<Rightarrow> string \<Rightarrow> bool" where
  "needsCacheRefresh sys projectRoot transformationsFile =
     (if \<not> exists_file sys transformationsFile then True
      else
        (let dependenciesChanged =
               isModifiedAfter sys (path_join [projectRoot, ELM_JSON]) transformationsFile;
             readmeChanged =
               isModifiedAfter sys (path_join [projectRoot, README_MD]) transformationsFile
         in dependenciesChanged \<or> readmeChanged))"

definition extractWithCache ::
  "System \<Rightarrow> string \<Rightarrow> string \<Rightarrow> bool \<Rightarrow> bool \<Rightarrow> error + (Transform list \<times> System)" where
  "extractWithCache sys projectRoot elmHome test' refresh =
     (let transformationsFile = path_join [projectRoot, ELM_STUFF, ''transformations.json''];
          changed = (if refresh then refresh
                     else needsCacheRefresh sys projectRoot transformationsFile)
      in if \<not> changed then
           (case read_rules sys transformationsFile of
              Inl e \<Rightarrow> Inl e
            | Inr transformations' \<Rightarrow> Inr (transformations', sys))
         else
           (case extract_transformations sys projectRoot elmHome test' of
              Inl e \<Rightarrow> Inl e
            | Inr transformations' \<Rightarrow>
                Inr (transformations', write_rules sys transformationsFile transformations')))"


section \<open>Extraction and cache in the revision of src/xelm.ts\<close>

text \<open>
  In this revision \<^verbatim>\<open>extractReadme\<close> takes no namespace and keeps the text of a block as it
  is, \<^verbatim>\<open>parseElmJson\<close> chooses between the dependencies and the test dependencies, and
  the cache artifact of the test mode has a file of its own. \<^verbatim>\<open>getModificationTime\<close>,
  \<^verbatim>\<open>isModifiedAfter\<close> and \<^verbatim>\<open>needsCacheRefresh\<close> are the same in both revisions. The
  function \<^verbatim>\<open>exit\<close> of this revision ends the process or throws: an error, either way.
\<close>

fun extractReadme_loop_ts ::
  "bool \<Rightarrow> string option \<Rightarrow> Transform list \<Rightarrow> token list \<Rightarrow>
   error + (string option \<times> Transform list)" where
  "extractReadme_loop_ts collect pending transforms [] = Inr (pending, transforms)"
| "extractReadme_loop_ts collect pending transforms (token # rest) =
     (if collect \<and> stops_collecting token then Inr (pending, transforms)
      else
        (let collect = (collect \<or> starts_collecting token)
         in case token of
              Code lang text \<Rightarrow>
                (if collect then
                   (if lang \<noteq> Some ''js'' then Inl (Unexpected_code_block lang)
                    else
                      (case pending of
                         Some f \<Rightarrow>
                           extractReadme_loop_ts collect None
                             (transforms @ [\<lparr>find = f, replace = text\<rparr>]) rest
                       | None \<Rightarrow> extractReadme_loop_ts collect (Some text) transforms rest))
                 else extractReadme_loop_ts collect pending transforms rest)
            | _ \<Rightarrow> extractReadme_loop_ts collect pending transforms rest))"

definition extractReadme_ts :: "System \<Rightarrow> string \<Rightarrow> error + Transform list" where
  "extractReadme_ts sys filePath =
     (if \<not> exists_file sys filePath then Inr []
      else
        (case read_markdown sys filePath of
           Inl e \<Rightarrow> Inl e
         | Inr tokens \<Rightarrow>
             (case extractReadme_loop_ts False None [] tokens of
                Inl e \<Rightarrow> Inl e
              | Inr (Some f, transforms) \<Rightarrow> Inl (Unmatched_pattern f)
              | Inr (None, transforms) \<Rightarrow> Inr transforms)))"

definition extractDependency_ts ::
  "System \<Rightarrow> string \<Rightarrow> string \<Rightarrow> string \<Rightarrow> error + Transform list" where
  "extractDependency_ts sys dependency version directory =
     (let parts = split_on CHR ''/'' dependency
      in case (nth_opt parts 0, nth_opt parts 1) of
           (Some author, Some name') \<Rightarrow>
             extractReadme_ts sys (path_join [directory, author, name', version, README_MD])
         | _ \<Rightarrow> Inl TypeError)"

definition parseElmJson_ts ::
  "System \<Rightarrow> string \<Rightarrow> bool \<Rightarrow> error + (string \<times> (string \<times> string) list)" where
  \<comment> \<open>the result is \<^verbatim>\<open>{ version, dependencies }\<close>\<close>
  "parseElmJson_ts sys filePath test' =
     (if \<not> exists_file sys filePath then Inl (Not_found_elm_json filePath)
      else
        (case read_manifest sys filePath of
           Inl e \<Rightarrow> Inl e
         | Inr elmJson \<Rightarrow>
             (case elm_version elmJson of
                None \<Rightarrow> Inl Undefined_elm_version
              | Some version \<Rightarrow>
                  (let deps = (case (if test' then test_dependencies elmJson
                                     else dependencies elmJson) of
                                 None \<Rightarrow> \<lparr>direct = None, indirect = None\<rparr>
                               | Some d \<Rightarrow> d)
                   in Inr (version, entries (direct deps) @ entries (indirect deps))))))"

fun extract_loop_ts ::
  "System \<Rightarrow> string \<Rightarrow> Transform list \<Rightarrow> (string \<times> string) list \<Rightarrow> error + Transform list" where
  "extract_loop_ts sys directory transformations' [] = Inr transformations'"
| "extract_loop_ts sys directory transformations' ((dep, ver) # rest) =
     (case extractDependency_ts sys dep ver directory of
        Inl e \<Rightarrow> Inl e
      | Inr ts \<Rightarrow> extract_loop_ts sys directory (transformations' @ ts) rest)"

definition extract_transformations_ts ::
  "System \<Rightarrow> string \<Rightarrow> string \<Rightarrow> bool \<Rightarrow> error + Transform list" where
  "extract_transformations_ts sys projectRoot elmHome test' =
     (case extractReadme_ts sys (path_join [projectRoot, README_MD]) of
        Inl e \<Rightarrow> Inl e
      | Inr transformations' \<Rightarrow>
          (case parseElmJson_ts sys (path_join [projectRoot, ELM_JSON]) test' of
             Inl e \<Rightarrow> Inl e
           | Inr (version, dependencies') \<Rightarrow>
               extract_loop_ts sys (path_join [elmHome, version, ''packages''])
                 transformations' dependencies'))"

definition transformationsFile_ts :: "string \<Rightarrow> bool \<Rightarrow> string" where
  \<comment> \<open>the constant \<^verbatim>\<open>transformationsFile\<close> of \<^verbatim>\<open>extractWithCache\<close>\<close>
  "transformationsFile_ts projectRoot test' =
     (if test' then path_join [projectRoot, ELM_STUFF, ''transformations.test.json'']
      else path_join [projectRoot, ELM_STUFF, ''transformations.json''])"

definition extractWithCache_ts ::
  "System \<Rightarrow> string \<Rightarrow> string \<Rightarrow> bool \<Rightarrow> bool \<Rightarrow> error + (Transform list \<times> System)" where
  "extractWithCache_ts sys projectRoot elmHome test' refresh =
     (let transformationsFile = transformationsFile_ts projectRoot test';
          changed = (if refresh then refresh
                     else needsCacheRefresh sys projectRoot transformationsFile)
      in if \<not> changed then
           (case read_rules sys transformationsFile of
              Inl e \<Rightarrow> Inl e
            | Inr transformations' \<Rightarrow> Inr (transformations', sys))
         else
           (case extract_transformations_ts sys projectRoot elmHome test' of
              Inl e \<Rightarrow> Inl e
            | Inr transformations' \<Rightarrow>
                Inr (transformations', write_rules sys transformationsFile transformations')))"

section \<open>The entry point\<close>

text \<open>
  \<^verbatim>\<open>xelm\<close> is the same in both revisions. Its options are optional one by one, and an
  absent options object is the record without any. \<^verbatim>\<open>Env\<close> holds what the program reads
  from the process: the working directory and the constant \<^verbatim>\<open>DEFAULT_ELM_HOME\<close>. The
  function \<^verbatim>\<open>elm\<close>, which runs the compiler, is a parameter: \<^verbatim>\<open>xelm\<close> returns what it
  returns. \<open>elm_config\<close> is the part of the object \<^verbatim>\<open>config\<close> of \<^verbatim>\<open>elm\<close> that the rules
  depend on, and \<open>postprocess_transform\<close> the first step of \<^verbatim>\<open>postprocess\<close>.
\<close>

record ExtraOptions =
  projectRoot :: "string option"
  elmHome :: "string option"
  debug_opt :: "bool option"
  transformations_opt :: "Transform list option"
  test_opt :: "bool option"
  refresh :: "bool option"

record Env =
  cwd :: string
  DEFAULT_ELM_HOME :: string

definition or_else :: "'a option \<Rightarrow> 'a \<Rightarrow> 'a" where
  \<comment> \<open>\<^verbatim>\<open>x ?? y\<close>\<close>
  "or_else x y = (case x of None \<Rightarrow> y | Some v \<Rightarrow> v)"

definition xelm_options :: "Env \<Rightarrow> ExtraOptions \<Rightarrow> Transform list \<Rightarrow> ExtraOptions" where
  \<comment> \<open>the options that \<^verbatim>\<open>xelm\<close> hands to \<^verbatim>\<open>elm\<close>, for the rules that \<^verbatim>\<open>extractWithCache\<close>
      returned: the rules of the caller are pushed behind them\<close>
  "xelm_options env options extracted =
     options
       \<lparr>projectRoot := Some (or_else (projectRoot options) (cwd env)),
        elmHome := Some (or_else (elmHome options) (DEFAULT_ELM_HOME env)),
        transformations_opt :=
          Some (case transformations_opt options of
                  None \<Rightarrow> extracted
                | Some given \<Rightarrow> extracted @ given)\<rparr>"

definition xelm ::
  "(System \<Rightarrow> string list \<Rightarrow> string \<Rightarrow> ExtraOptions \<Rightarrow> 'r) \<Rightarrow> Env \<Rightarrow> System \<Rightarrow>
   string list \<Rightarrow> string \<Rightarrow> ExtraOptions \<Rightarrow> error + 'r" where
  "xelm elm env sys inputs output options =
     (case extractWithCache sys
             (or_else (projectRoot options) (cwd env))
             (or_else (elmHome options) (DEFAULT_ELM_HOME env))
             (or_else (test_opt options) False)
             (or_else (refresh options) False) of
        Inl e \<Rightarrow> Inl e
      | Inr (extracted, sys') \<Rightarrow>
          Inr (elm sys' inputs output (xelm_options env options extracted)))"

definition xelm_ts ::
  "(System \<Rightarrow> string list \<Rightarrow> string \<Rightarrow> ExtraOptions \<Rightarrow> 'r) \<Rightarrow> Env \<Rightarrow> System \<Rightarrow>
   string list \<Rightarrow> string \<Rightarrow> ExtraOptions \<Rightarrow> error + 'r" where
  "xelm_ts elm env sys inputs output options =
     (case extractWithCache_ts sys
             (or_else (projectRoot options) (cwd env))
             (or_else (elmHome options) (DEFAULT_ELM_HOME env))
             (or_else (test_opt options) False)
             (or_else (refresh options) False) of
        Inl e \<Rightarrow> Inl e
      | Inr (extracted, sys') \<Rightarrow>
          Inr (elm sys' inputs output (xelm_options env options extracted)))"

definition elm_config :: "ExtraOptions \<Rightarrow> PostConfig" where
  "elm_config options =
     \<lparr>debug = or_else (debug_opt options) False,
      test = or_else (test_opt options) False,
      transformations = or_else (transformations_opt options) []\<rparr>"

definition postprocess_transform :: "string \<Rightarrow> PostConfig \<Rightarrow> error + string" where
  \<comment> \<open>\<^verbatim>\<open>if (config.transformations.length > 0) content = transform(content, config)\<close>\<close>
  "postprocess_transform s config =
     (if transformations config \<noteq> [] then transform s config else Inr s)"


section \<open>What the preprocessor emits\<close>






section \<open>What the rules replace\<close>

text \<open>
  The texts that \<^verbatim>\<open>transform\<close> looks for are the \<^verbatim>\<open>find\<close> texts after \<^verbatim>\<open>spacesToTabs\<close>; the
  replacement of a matched text is the preprocessed \<^verbatim>\<open>replace\<close> text of the last rule
  with that text, as the object \<^verbatim>\<open>map\<close> keeps the last assignment to a key.
\<close>

definition normalised_find :: "Transform \<Rightarrow> string" where
  "normalised_find t = spacesToTabs (find t) ''  ''"

definition replacement_text :: "PostConfig \<Rightarrow> Transform \<Rightarrow> string" where
  "replacement_text config t = preprocess (spacesToTabs (replace t) ''  '') config"

definition rule_replacement :: "PostConfig \<Rightarrow> Transform list \<Rightarrow> string \<Rightarrow> string" where
  "rule_replacement config ts sub =
     (if sub = ''__proto__'' then ''[object Object]''
      else (case List.find (\<lambda>t. normalised_find t = sub) (rev ts) of
              None \<Rightarrow> sub
            | Some t \<Rightarrow> replacement_text config t))"

definition searched_texts :: "Transform list \<Rightarrow> string list" where
  \<comment> \<open>the alternatives, in the order of the rules; the pattern without rules is the empty group\<close>
  "searched_texts ts = (if ts = [] then [[]] else map normalised_find ts)"

definition rewrite_with :: "string \<Rightarrow> string \<Rightarrow> error + string" where
  \<comment> \<open>rewriting a text with the matcher built for an identifier\<close>
  "rewrite_with identifier s =
     (case getNamespace identifier of
        Inl e \<Rightarrow> Inl e
      | Inr r \<Rightarrow> rewrite_namespace (Some r) s)"


section \<open>What the scan of a documentation file collects\<close>

text \<open>
  The code blocks that the scan collects, each with its language tag and its text: those
  behind the first paragraph that holds a link to the anchor, up to the next heading of
  depth 1 to 3, or to the end.
\<close>

definition code_blocks :: "token list \<Rightarrow> (string option \<times> string) list" where
  "code_blocks tokens = concat (map (\<lambda>t. case t of Code lang text \<Rightarrow> [(lang, text)] | _ \<Rightarrow> []) tokens)"

definition collected :: "token list \<Rightarrow> (string option \<times> string) list" where
  "collected tokens =
     code_blocks
       (takeWhile (\<lambda>t. \<not> stops_collecting t)
          (drop 1 (dropWhile (\<lambda>t. \<not> starts_collecting t) tokens)))"

definition block_text :: "RegExp option \<Rightarrow> string \<Rightarrow> string" where
  \<comment> \<open>the text of a block as the later revision puts it into a rule: rewritten with the
      namespace, when there is one, and with its indentation normalised\<close>
  "block_text regExp s =
     spacesToTabs (case rewrite_namespace regExp s of Inl e \<Rightarrow> s | Inr s' \<Rightarrow> s') ''    ''"

definition malformed :: "error \<Rightarrow> bool" where
  \<comment> \<open>the two errors of the scan\<close>
  "malformed e = (case e of Unexpected_code_block lang \<Rightarrow> True | Unmatched_pattern f \<Rightarrow> True | _ \<Rightarrow> False)"

fun scan_blocks ::
  "(string \<Rightarrow> string) \<Rightarrow> string option \<Rightarrow> Transform list \<Rightarrow> (string option \<times> string) list \<Rightarrow>
   error + (string option \<times> Transform list)" where
  \<comment> \<open>pairing the collected blocks, each text passed through \<open>g\<close>\<close>
  "scan_blocks g pending transforms [] = Inr (pending, transforms)"
| "scan_blocks g pending transforms ((lang, s) # blocks) =
     (if lang \<noteq> Some ''js'' then Inl (Unexpected_code_block lang)
      else (case pending of
              Some f \<Rightarrow> scan_blocks g None (transforms @ [\<lparr>find = f, replace = g s\<rparr>]) blocks
            | None \<Rightarrow> scan_blocks g (Some (g s)) transforms blocks))"

definition can_rewrite :: "RegExp option \<Rightarrow> bool" where
  \<comment> \<open>the regular expression, when there is one, is in the fragment of the model\<close>
  "can_rewrite regExp = (case regExp of None \<Rightarrow> True | Some r \<Rightarrow> alternatives r \<noteq> None)"

definition finish :: "error + (string option \<times> Transform list) \<Rightarrow> error + Transform list" where
  \<comment> \<open>the end of the scan: a pending \<^verbatim>\<open>find\<close> is an error\<close>
  "finish r =
     (case r of
        Inl e \<Rightarrow> Inl e
      | Inr (Some f, transforms) \<Rightarrow> Inl (Unmatched_pattern f)
      | Inr (None, transforms) \<Rightarrow> Inr transforms)"

definition rule_at :: "(string \<Rightarrow> string) \<Rightarrow> (string option \<times> string) list \<Rightarrow> nat \<Rightarrow> Transform" where
  \<comment> \<open>the rule of the blocks \<open>2i\<close> and \<open>2i + 1\<close>\<close>
  "rule_at g blocks i = \<lparr>find = g (snd (blocks ! (2 * i))), replace = g (snd (blocks ! (2 * i + 1)))\<rparr>"


section \<open>What the cache decides\<close>







section \<open>The preprocessor: proofs\<close>








lemma split_on_line:
  "sep \<notin> set l \<Longrightarrow> split_on sep l = [l]"
  by (induction l) auto

lemma split_on_first_line:
  "sep \<notin> set l \<Longrightarrow> split_on sep (l @ sep # s) = l # split_on sep s"
  by (induction l) auto



text \<open>
  C7, as the claim states it, fails: the text that is one closing marker is preprocessed
  to the empty text, and nothing is raised.
\<close>

theorem C7_counterexample:
  "preprocess ''// @END'' \<lparr>debug = False, test = False, transformations = []\<rparr> = []"
  by code_simp

text \<open>
  C7, amended. The preprocessor is a total function to texts: it has no error. A closing
  marker that it meets while no block is open is dropped and changes nothing: the loop
  goes on with the empty stack, the text behind such a first line is preprocessed as if
  the marker were not there, and a text that is only such a marker becomes the empty
  text.
\<close>

theorem C7_closing_marker_is_dropped:
  assumes "marker_of line = Pop" and "LF \<notin> set line"
  shows "preprocess_loop config [] lines (line # rest) = preprocess_loop config [] lines rest \<and>
         preprocess (line @ LF # s) config = preprocess s config \<and>
         preprocess line config = []"
  using assms by (simp add: preprocess_def split_on_first_line split_on_line)

theorem C7_closing_marker_is_dropped_witness:
  "preprocess_loop \<lparr>debug = True, test = False, transformations = []\<rparr> [] [] [''// @END'', ''x''] =
     preprocess_loop \<lparr>debug = True, test = False, transformations = []\<rparr> [] [] [''x''] \<and>
   preprocess (''// @END'' @ LF # ''x'') \<lparr>debug = True, test = False, transformations = []\<rparr> =
     preprocess ''x'' \<lparr>debug = True, test = False, transformations = []\<rparr> \<and>
   preprocess ''// @END'' \<lparr>debug = True, test = False, transformations = []\<rparr> = []"
proof -
  have "marker_of ''// @END'' = Pop"
    by code_simp
  moreover have "LF \<notin> set ''// @END''"
    by simp
  ultimately show ?thesis
    by (rule C7_closing_marker_is_dropped)
qed


section \<open>Regular expressions and rules: proofs\<close>

lemma re_tokens_plain: "c \<noteq> BACKSLASH \<Longrightarrow> re_tokens (c # xs) = re_plain c # re_tokens xs"
  by (cases xs) simp_all

lemma re_tokens_escaped: "re_tokens (BACKSLASH # d # xs) = re_escaped d # re_tokens xs"
  by simp

lemma escaped_char:
  "c \<in> set (''.*+?^${}()|[]/'' @ [BACKSLASH]) \<Longrightarrow> re_escaped c = Lit c"
  by (auto simp: re_escaped_def syntax_character_def)

lemma plain_char:
  "c \<notin> set (''.*+?^${}()|[]/'' @ [BACKSLASH]) \<Longrightarrow> re_plain c = Lit c \<and> c \<noteq> BACKSLASH"
  by (auto simp: re_plain_def syntax_character_def)

lemma re_tokens_escapeRegExp:
  "re_tokens (escapeRegExp s @ rest) = map Lit s @ re_tokens rest"
proof (induction s)
  case Nil
  show ?case by simp
next
  case (Cons c s)
  show ?case
  proof (cases "c \<in> set (''.*+?^${}()|[]/'' @ [BACKSLASH])")
    case True
    then have "re_escaped c = Lit c" by (rule escaped_char)
    with True Cons show ?thesis by (simp del: set_append set_simps)
  next
    case False
    then have "re_plain c = Lit c \<and> c \<noteq> BACKSLASH" by (rule plain_char)
    with False Cons show ?thesis
      using re_tokens_plain [of c "escapeRegExp s @ rest"] by (simp del: set_append set_simps re_tokens.simps)
  qed
qed


lemma literal_alternatives_Lit:
  "literal_alternatives ts = Some (a # as) \<Longrightarrow>
   literal_alternatives (map Lit s @ ts) = Some ((s @ a) # as)"
  by (induction s) simp_all



lemma transform_loop_eq:
  "transform_loop config m ps ts =
     (foldl (\<lambda>m t. map_set m (normalised_find t) (replacement_text config t)) m ts,
      ps @ map (\<lambda>t. escapeRegExp (normalised_find t)) ts)"
  by (induction ts arbitrary: m ps)
    (simp_all add: Let_def normalised_find_def replacement_text_def)






lemma replace_matches_Nil:
  "replace_matches alts f [] = (if [] \<in> set alts then f [] else [])"
proof -
  have "List.find (\<lambda>a. prefix a []) alts = (if [] \<in> set alts then Some [] else None)"
    by (induction alts) auto
  then show ?thesis
    by (simp add: replace_matches.simps [of alts f "[]"])
qed

lemma replace_matches_single:
  "x \<noteq> [] \<Longrightarrow> replace_matches [x] f s = replaceAll_text x (f x) s"
proof (induction x "f x" s rule: replaceAll_text.induct)
  case (1 pat s)
  show ?case
  proof (cases "prefix pat s")
    case True
    with 1 show ?thesis
      by (simp add: replace_matches.simps [of "[pat]" f s] replaceAll_text.simps [of pat "f pat" s])
  next
    case False
    show ?thesis
    proof (cases s)
      case Nil
      with 1(3) show ?thesis
        by (simp add: replace_matches_Nil replaceAll_text.simps [of pat "f pat" "[]"])
    next
      case (Cons c cs)
      with False 1(2) [of c cs] 1(3) show ?thesis
        by (simp add: replace_matches.simps [of "[pat]" f "c # cs"]
            replaceAll_text.simps [of pat "f pat" "c # cs"])
    qed
  qed
qed



lemma replaceAll_text_absent:
  "\<not> sublist pat s \<Longrightarrow> replaceAll_text pat rep s = s"
proof (induction s)
  case Nil
  then show ?case by (simp add: replaceAll_text.simps [of pat rep "[]"])
next
  case (Cons c s)
  then have "\<not> prefix pat (c # s)" "\<not> sublist pat s" "pat \<noteq> []"
    by (auto simp: sublist_Cons_right)
  with Cons show ?case by (simp add: replaceAll_text.simps [of pat rep "c # s"])
qed

lemma replaceAll_text_first:
  assumes "pat \<noteq> []" and "\<not> sublist pat (a @ butlast pat)"
  shows "replaceAll_text pat rep (a @ pat @ b) = a @ rep @ replaceAll_text pat rep b"
  using assms(2)
proof (induction a)
  case Nil
  with assms(1) show ?case by (simp add: replaceAll_text.simps [of pat rep "pat @ b"])
next
  case (Cons c a)
  have "\<not> prefix pat (c # a @ pat @ b)"
  proof
    assume p: "prefix pat (c # a @ pat @ b)"
    have "length pat \<le> length ((c # a) @ butlast pat)"
      by simp
    moreover have "(c # a) @ pat @ b = ((c # a) @ butlast pat) @ (last pat # b)"
      using assms(1) by simp
    ultimately have "prefix pat ((c # a) @ butlast pat)"
      using p by (metis append_Cons prefix_length_prefix prefixI)
    then show False
      using Cons.prems by (auto dest: prefix_imp_sublist)
  qed
  moreover have "\<not> sublist pat (a @ butlast pat)"
    using Cons.prems by (auto simp: sublist_Cons_right)
  ultimately show ?case
    using Cons.IH assms(1) by (simp add: replaceAll_text.simps [of pat rep "c # a @ pat @ b"])
qed

lemma escapeVar_idem: "escapeVar (escapeVar s) = escapeVar s"
  by (simp add: escapeVar_def)

lemma alternatives_literal:
  assumes "re_tokens src = map Lit s"
  shows "alternatives (RegExp src) = Some [s]"
proof -
  have "literal_alternatives (map Lit s) = Some [s]"
    using literal_alternatives_Lit [of "[]" "[]" "[]" s] by simp
  with assms show ?thesis
    by (cases s) (simp_all add: alternatives_def)
qed

lemma getNamespace_alternatives:
  assumes "getNamespace n = Inr r"
  shows "\<exists>author project more. split_on CHR ''/'' (escapeVar n) = author # project # more \<and>
     alternatives r = Some [''$'' @ escapeVar author @ ''$'' @ escapeVar project @ ''$'']"
proof -
  obtain author project more where sp: "split_on CHR ''/'' (escapeVar n) = author # project # more"
    using assms
    by (cases "split_on CHR ''/'' (escapeVar n)"; cases "tl (split_on CHR ''/'' (escapeVar n))")
      (auto simp: getNamespace_def Let_def split: option.splits)
  have "re_tokens (BACKSLASH # CHR ''$'' # xs) = Lit (CHR ''$'') # re_tokens xs" for xs
    by (simp add: re_escaped_def syntax_character_def)
  then have toks: "re_tokens ([BACKSLASH] @ ''$'' @ escapeRegExp a @ [BACKSLASH] @ ''$'' @
      escapeRegExp p @ [BACKSLASH] @ ''$'') = map Lit (''$'' @ a @ ''$'' @ p @ ''$'')" for a p
    using re_tokens_escapeRegExp [of a "[BACKSLASH] @ ''$'' @ escapeRegExp p @ [BACKSLASH] @ ''$''"]
      re_tokens_escapeRegExp [of p "[BACKSLASH] @ ''$''"]
    by simp
  have "r = RegExp ([BACKSLASH] @ ''$'' @ escapeRegExp (escapeVar author) @ [BACKSLASH] @ ''$'' @
      escapeRegExp (escapeVar project) @ [BACKSLASH] @ ''$'')"
    using assms sp by (simp add: getNamespace_def Let_def)
  then have "alternatives r = Some [''$'' @ escapeVar author @ ''$'' @ escapeVar project @ ''$'']"
    using alternatives_literal [OF toks [of "escapeVar author" "escapeVar project"]] by simp
  with sp show ?thesis by blast
qed


section \<open>The namespace: proofs\<close>

lemma rewrite_with_eq:
  assumes "getNamespace n = Inr r"
  shows "\<exists>author project more. split_on CHR ''/'' (escapeVar n) = author # project # more \<and>
     rewrite_with n s =
       Inr (replaceAll_text (''$'' @ escapeVar author @ ''$'' @ escapeVar project @ ''$'')
              ''$author$project$'' s)"
proof -
  from getNamespace_alternatives [OF assms] obtain author project more
    where sp: "split_on CHR ''/'' (escapeVar n) = author # project # more"
      and alt: "alternatives r = Some [''$'' @ escapeVar author @ ''$'' @ escapeVar project @ ''$'']"
    by blast
  have "rewrite_with n s =
      Inr (replaceAll_text (''$'' @ escapeVar author @ ''$'' @ escapeVar project @ ''$'')
              ''$author$project$'' s)"
    using assms alt
      replace_matches_single [of "''$'' @ escapeVar author @ ''$'' @ escapeVar project @ ''$''"
        "\<lambda>_. ''$author$project$''" s]
    by (simp add: rewrite_with_def rewrite_namespace_def replaceAll_RegExp_def)
  with sp show ?thesis by blast
qed

lemma acme_widgets:
  "rewrite_with ''acme/widgets'' s = Inr (replaceAll_text ''$acme$widgets$'' ''$author$project$'' s)"
proof -
  have "getNamespace ''acme/widgets'' =
      Inr (RegExp ([BACKSLASH] @ ''$acme'' @ [BACKSLASH] @ ''$widgets'' @ [BACKSLASH] @ ''$''))"
    by code_simp
  from rewrite_with_eq [OF this, of s] obtain author project more
    where sp: "split_on CHR ''/'' (escapeVar ''acme/widgets'') = author # project # more"
      and rw: "rewrite_with ''acme/widgets'' s =
        Inr (replaceAll_text (''$'' @ escapeVar author @ ''$'' @ escapeVar project @ ''$'')
              ''$author$project$'' s)"
    by blast
  have "split_on CHR ''/'' (escapeVar ''acme/widgets'') = [''acme'', ''widgets'']"
    by code_simp
  with sp have "author = ''acme''" "project = ''widgets''"
    by simp_all
  moreover have "escapeVar ''acme'' = ''acme''" "escapeVar ''widgets'' = ''widgets''"
    by code_simp+
  ultimately show ?thesis
    using rw by simp
qed

lemma replaceAll_text_skip:
  "pat \<noteq> [] \<Longrightarrow> hd pat \<noteq> c \<Longrightarrow> replaceAll_text pat rep (c # s) = c # replaceAll_text pat rep s"
proof -
  assume "pat \<noteq> []" and "hd pat \<noteq> c"
  then have "\<not> prefix pat (c # s)"
    by (cases pat) auto
  with \<open>pat \<noteq> []\<close> show ?thesis
    by (simp add: replaceAll_text.simps [of pat rep "c # s"])
qed

text \<open>
  C8. Rewriting with the matcher built for \<^verbatim>\<open>acme/widgets\<close> replaces every occurrence of
  \<^verbatim>\<open>$acme$widgets$\<close>, from the left, by \<^verbatim>\<open>$author$project$\<close>: the text \<^verbatim>\<open>$acme$widgets$foo\<close>
  becomes \<^verbatim>\<open>$author$project$foo\<close>; where the occurrence behind a text \<open>a\<close> is the first of the
  whole text, \<open>a\<close> stays, the occurrence is replaced, and what follows is rewritten in the
  same way; and a text without an occurrence of the prefix stays as it is.
\<close>

theorem C8_namespace_rewrite:
  "rewrite_with ''acme/widgets'' s =
     Inr (replaceAll_text ''$acme$widgets$'' ''$author$project$'' s) \<and>
   rewrite_with ''acme/widgets'' ''$acme$widgets$foo'' = Inr ''$author$project$foo'' \<and>
   (\<not> sublist ''$acme$widgets$'' (a @ ''$acme$widgets'') \<longrightarrow>
      replaceAll_text ''$acme$widgets$'' ''$author$project$'' (a @ ''$acme$widgets$foo'' @ b) =
        a @ ''$author$project$foo'' @ replaceAll_text ''$acme$widgets$'' ''$author$project$'' b) \<and>
   (\<not> sublist ''$acme$widgets$'' s \<longrightarrow> rewrite_with ''acme/widgets'' s = Inr s)"
proof (intro conjI impI)
  show "rewrite_with ''acme/widgets'' s =
      Inr (replaceAll_text ''$acme$widgets$'' ''$author$project$'' s)"
    by (rule acme_widgets)
  have "replaceAll_text ''$acme$widgets$'' ''$author$project$'' ''$acme$widgets$foo'' =
      ''$author$project$foo''"
    by code_simp
  then show "rewrite_with ''acme/widgets'' ''$acme$widgets$foo'' = Inr ''$author$project$foo''"
    by (simp only: acme_widgets)
  show "replaceAll_text ''$acme$widgets$'' ''$author$project$'' (a @ ''$acme$widgets$foo'' @ b) =
      a @ ''$author$project$foo'' @ replaceAll_text ''$acme$widgets$'' ''$author$project$'' b"
    if "\<not> sublist ''$acme$widgets$'' (a @ ''$acme$widgets'')"
    using that replaceAll_text_first [of "''$acme$widgets$''" a "''$author$project$''" "''foo'' @ b"]
    by (simp add: replaceAll_text_skip)
  show "rewrite_with ''acme/widgets'' s = Inr s" if "\<not> sublist ''$acme$widgets$'' s"
    using that by (simp add: acme_widgets replaceAll_text_absent)
qed

theorem C8_namespace_rewrite_witness:
  "rewrite_with ''acme/widgets'' ''var x = $acme$widgets$foo($acme$widgets$bar);'' =
     Inr ''var x = $author$project$foo($author$project$bar);'' \<and>
   replaceAll_text ''$acme$widgets$'' ''$author$project$'' (''f($acme$'' @ ''$acme$widgets$foo'' @ ''(1))'') =
     ''f($acme$'' @ ''$author$project$foo'' @ ''(1))'' \<and>
   rewrite_with ''acme/widgets'' ''$acme$gadgets$foo'' = Inr ''$acme$gadgets$foo''"
proof -
  have 1: "replaceAll_text ''$acme$widgets$'' ''$author$project$''
      ''var x = $acme$widgets$foo($acme$widgets$bar);'' =
      ''var x = $author$project$foo($author$project$bar);''"
    by code_simp
  have 2: "\<not> sublist ''$acme$widgets$'' (''f($acme$'' @ ''$acme$widgets'')"
    by code_simp
  have 3: "replaceAll_text ''$acme$widgets$'' ''$author$project$'' ''(1))'' = ''(1))''"
    by code_simp
  have 4: "\<not> sublist ''$acme$widgets$'' ''$acme$gadgets$foo''"
    by code_simp
  have "rewrite_with ''acme/widgets'' ''var x = $acme$widgets$foo($acme$widgets$bar);'' =
      Inr ''var x = $author$project$foo($author$project$bar);''"
    using C8_namespace_rewrite [of "''var x = $acme$widgets$foo($acme$widgets$bar);''" "[]" "[]"] 1
    by (simp only: simp_thms)
  moreover have "replaceAll_text ''$acme$widgets$'' ''$author$project$''
      (''f($acme$'' @ ''$acme$widgets$foo'' @ ''(1))'') =
      ''f($acme$'' @ ''$author$project$foo'' @ ''(1))''"
    using C8_namespace_rewrite [of "[]" "''f($acme$''" "''(1))''"] 2 3
    by (simp only: simp_thms)
  moreover have "rewrite_with ''acme/widgets'' ''$acme$gadgets$foo'' = Inr ''$acme$gadgets$foo''"
    using C8_namespace_rewrite [of "''$acme$gadgets$foo''" "[]" "[]"] 4
    by blast
  ultimately show ?thesis
    by (simp only: simp_thms)
qed


section \<open>Applying the rules: proofs\<close>

lemma find_SomeD: "List.find P xs = Some x \<Longrightarrow> P x \<and> x \<in> set xs"
  by (induction xs) (auto split: if_splits)






section \<open>The scan of a documentation file: proofs\<close>

lemma rewrite_namespace_block_text:
  "can_rewrite regExp \<Longrightarrow>
   \<exists>s'. rewrite_namespace regExp s = Inr s' \<and> spacesToTabs s' ''    '' = block_text regExp s"
  by (cases regExp)
    (auto simp: can_rewrite_def rewrite_namespace_def replaceAll_RegExp_def block_text_def)

lemma namespace_RegExp_rewrites:
  "namespace_RegExp namespace = Inr regExp \<Longrightarrow> can_rewrite regExp"
proof (cases namespace)
  case None
  assume "namespace_RegExp namespace = Inr regExp"
  with None show ?thesis by (simp add: namespace_RegExp_def can_rewrite_def)
next
  case (Some n)
  assume *: "namespace_RegExp namespace = Inr regExp"
  show ?thesis
  proof (cases "n = []")
    case True
    with * Some show ?thesis by (simp add: namespace_RegExp_def can_rewrite_def)
  next
    case False
    with * Some obtain r where "getNamespace n = Inr r" "regExp = Some r"
      by (cases "getNamespace n") (auto simp: namespace_RegExp_def)
    with getNamespace_alternatives [of n r] show ?thesis
      by (auto simp: can_rewrite_def)
  qed
qed

lemma extractReadme_loop_collecting:
  assumes "can_rewrite regExp"
  shows "extractReadme_loop regExp True pending transforms tokens =
     scan_blocks (block_text regExp) pending transforms
       (code_blocks (takeWhile (\<lambda>t. \<not> stops_collecting t) tokens))"
proof (induction tokens arbitrary: pending transforms)
  case Nil
  show ?case by (simp add: code_blocks_def)
next
  case (Cons token tokens)
  show ?case
  proof (cases "stops_collecting token")
    case True
    then show ?thesis by (simp add: code_blocks_def)
  next
    case False
    show ?thesis
    proof (cases token)
      case (Code lang s)
      from rewrite_namespace_block_text [OF assms, of s] obtain s'
        where "rewrite_namespace regExp s = Inr s'" "spacesToTabs s' ''    '' = block_text regExp s"
        by blast
      with Code False Cons show ?thesis
        by (cases pending) (simp_all add: code_blocks_def)
    qed (use False Cons in \<open>simp_all add: code_blocks_def\<close>)
  qed
qed

lemma extractReadme_loop_ts_collecting:
  "extractReadme_loop_ts True pending transforms tokens =
     scan_blocks (\<lambda>s. s) pending transforms
       (code_blocks (takeWhile (\<lambda>t. \<not> stops_collecting t) tokens))"
proof (induction tokens arbitrary: pending transforms)
  case Nil
  show ?case by (simp add: code_blocks_def)
next
  case (Cons token tokens)
  show ?case
  proof (cases "stops_collecting token")
    case True
    then show ?thesis by (simp add: code_blocks_def)
  next
    case False
    show ?thesis
    proof (cases token)
      case (Code lang s)
      with False Cons show ?thesis
        by (cases pending) (simp_all add: code_blocks_def)
    qed (use False Cons in \<open>simp_all add: code_blocks_def\<close>)
  qed
qed

lemma extractReadme_loop_before:
  "extractReadme_loop regExp False None [] tokens =
     extractReadme_loop regExp True None []
       (drop 1 (dropWhile (\<lambda>t. \<not> starts_collecting t) tokens))"
proof (induction tokens)
  case Nil
  show ?case by simp
next
  case (Cons token tokens)
  show ?case
  proof (cases "starts_collecting token")
    case True
    then obtain items where "token = Paragraph items"
      by (cases token) (auto simp: starts_collecting_def)
    with True show ?thesis by simp
  next
    case False
    with Cons show ?thesis by (cases token) simp_all
  qed
qed

lemma extractReadme_loop_ts_before:
  "extractReadme_loop_ts False None [] tokens =
     extractReadme_loop_ts True None []
       (drop 1 (dropWhile (\<lambda>t. \<not> starts_collecting t) tokens))"
proof (induction tokens)
  case Nil
  show ?case by simp
next
  case (Cons token tokens)
  show ?case
  proof (cases "starts_collecting token")
    case True
    then obtain items where "token = Paragraph items"
      by (cases token) (auto simp: starts_collecting_def)
    with True show ?thesis by simp
  next
    case False
    with Cons show ?thesis by (cases token) simp_all
  qed
qed

lemma extractReadme_scan:
  assumes "files sys filePath = Some f" and "data f = Markdown tokens"
    and "namespace_RegExp namespace = Inr regExp"
  shows "extractReadme sys filePath namespace =
     finish (scan_blocks (block_text regExp) None [] (collected tokens))"
  using assms extractReadme_loop_collecting [OF namespace_RegExp_rewrites [OF assms(3)]]
  by (simp add: extractReadme_def exists_file_def read_markdown_def extractReadme_loop_before
      collected_def finish_def)

lemma extractReadme_ts_scan:
  assumes "files sys filePath = Some f" and "data f = Markdown tokens"
  shows "extractReadme_ts sys filePath = finish (scan_blocks (\<lambda>s. s) None [] (collected tokens))"
  using assms
  by (simp add: extractReadme_ts_def exists_file_def read_markdown_def extractReadme_loop_ts_before
      extractReadme_loop_ts_collecting collected_def finish_def)

lemma scan_blocks_js:
  assumes "\<forall>(lang, s) \<in> set blocks. lang = Some ''js''"
  shows "\<exists>p. scan_blocks g None transforms blocks =
       Inr (p, transforms @ map (rule_at g blocks) [0..<length blocks div 2]) \<and>
     (p = None \<longleftrightarrow> even (length blocks))"
  using assms
proof (induction blocks arbitrary: transforms rule: induct_list012)
  case 1
  show ?case by simp
next
  case (2 x)
  then show ?case by (cases x) simp
next
  case (3 x y zs)
  obtain lx sx ly sy where xy: "x = (lx, sx)" "y = (ly, sy)"
    by (cases x, cases y) blast
  from 3(3) have "\<forall>(lang, s) \<in> set zs. lang = Some ''js''"
    by simp
  from 3(1) [OF this, of "transforms @ [\<lparr>find = g sx, replace = g sy\<rparr>]"] obtain p
    where p: "scan_blocks g None (transforms @ [\<lparr>find = g sx, replace = g sy\<rparr>]) zs =
        Inr (p, (transforms @ [\<lparr>find = g sx, replace = g sy\<rparr>]) @
          map (rule_at g zs) [0..<length zs div 2])"
      and ev: "p = None \<longleftrightarrow> even (length zs)"
    by blast
  have "map (rule_at g (x # y # zs)) [0..<length (x # y # zs) div 2] =
      \<lparr>find = g sx, replace = g sy\<rparr> # map (rule_at g zs) [0..<length zs div 2]"
    by (simp add: map_upt_Suc rule_at_def xy del: upt_Suc)
  with p ev 3(3) xy show ?case
    by simp
qed

lemma scan_blocks_not_js:
  assumes "\<exists>(lang, s) \<in> set blocks. lang \<noteq> Some ''js''"
  shows "\<exists>lang. scan_blocks g pending transforms blocks = Inl (Unexpected_code_block lang)"
  using assms
proof (induction blocks arbitrary: pending transforms)
  case Nil
  then show ?case by simp
next
  case (Cons b blocks)
  obtain lang s where b: "b = (lang, s)"
    by (cases b)
  show ?case
  proof (cases "lang = Some ''js''")
    case True
    with Cons b show ?thesis
      by (cases pending) auto
  next
    case False
    with b show ?thesis by simp
  qed
qed

lemma finish_scan_js:
  assumes "\<forall>(lang, s) \<in> set blocks. lang = Some ''js''" and "length blocks = 2 * n"
  shows "\<exists>ts. finish (scan_blocks g None [] blocks) = Inr ts \<and> length ts = n \<and>
     (\<forall>i<n. ts ! i = rule_at g blocks i)"
proof -
  from scan_blocks_js [OF assms(1), of g "[]"] obtain p
    where "scan_blocks g None [] blocks = Inr (p, [] @ map (rule_at g blocks) [0..<length blocks div 2])"
      and "p = None \<longleftrightarrow> even (length blocks)"
    by blast
  with assms(2) show ?thesis
    by (simp add: finish_def)
qed

lemma finish_scan_fails:
  "(\<exists>e. finish (scan_blocks g None [] blocks) = Inl e) \<longleftrightarrow>
     (\<exists>(lang, s) \<in> set blocks. lang \<noteq> Some ''js'') \<or> odd (length blocks)"
proof (cases "\<exists>(lang, s) \<in> set blocks. lang \<noteq> Some ''js''")
  case True
  from scan_blocks_not_js [OF this, of g None "[]"] True show ?thesis
    by (auto simp: finish_def)
next
  case False
  then have "\<forall>(lang, s) \<in> set blocks. lang = Some ''js''"
    by auto
  from scan_blocks_js [OF this, of g "[]"] obtain p ts
    where "scan_blocks g None [] blocks = Inr (p, ts)" and "p = None \<longleftrightarrow> even (length blocks)"
    by blast
  with False show ?thesis
    by (cases p) (auto simp: finish_def)
qed

lemma finish_scan_malformed:
  "finish (scan_blocks g None [] blocks) = Inl e \<Longrightarrow> malformed e"
proof (cases "\<exists>(lang, s) \<in> set blocks. lang \<noteq> Some ''js''")
  case True
  assume "finish (scan_blocks g None [] blocks) = Inl e"
  with scan_blocks_not_js [OF True, of g None "[]"] show ?thesis
    by (auto simp: finish_def malformed_def)
next
  case False
  assume *: "finish (scan_blocks g None [] blocks) = Inl e"
  from False have "\<forall>(lang, s) \<in> set blocks. lang = Some ''js''"
    by auto
  from scan_blocks_js [OF this, of g "[]"] obtain p ts
    where "scan_blocks g None [] blocks = Inr (p, ts)"
    by blast
  with * show ?thesis
    by (cases p) (auto simp: finish_def malformed_def)
qed

text \<open>
  C1, as the claim states it, fails on the later revision: a block whose text starts with
  four blanks gives a \<^verbatim>\<open>find\<close> text that starts with a tab.
\<close>

theorem C1_counterexample:
  "collected [Paragraph [Link anchor], Code (Some ''js'') ''    a'', Code (Some ''js'') ''b''] =
     [(Some ''js'', ''    a''), (Some ''js'', ''b'')] \<and>
   extractReadme
     \<lparr>files = [''README.md'' \<mapsto> \<lparr>mtime = Some 0, data = Markdown
         [Paragraph [Link anchor], Code (Some ''js'') ''    a'', Code (Some ''js'') ''b'']\<rparr>],
      clock = 0\<rparr>
     ''README.md'' None = Inr [\<lparr>find = [TAB, CHR ''a''], replace = ''b''\<rparr>]"
  by code_simp

text \<open>
  C1, amended. Let the documentation file lex to tokens whose collected blocks, those behind
  the anchor link and before the next heading of depth 1 to 3, are \<open>2n\<close> blocks tagged js.
  Then extraction returns exactly \<open>n\<close> rules, in the order of the blocks: in the later
  revision rule \<open>i\<close> has as \<^verbatim>\<open>find\<close> the text of block \<open>2i\<close> and as \<^verbatim>\<open>replace\<close> the text of
  block \<open>2i + 1\<close>, each rewritten with the namespace (when one is given) and then with every
  four blanks of the white space at the start of a line turned into a tab; without a
  namespace that is \<^verbatim>\<open>spacesToTabs\<close> of the text. In the revision of src/xelm.ts the two
  fields are the texts of the blocks as they are.
\<close>

theorem C1_extractReadme:
  assumes "files sys filePath = Some f" and "data f = Markdown tokens"
    and "namespace_RegExp namespace = Inr regExp"
    and "\<forall>(lang, s) \<in> set (collected tokens). lang = Some ''js''"
    and "length (collected tokens) = 2 * n"
  shows "(\<exists>ts. extractReadme sys filePath namespace = Inr ts \<and> length ts = n \<and>
            (\<forall>i<n. find (ts ! i) = block_text regExp (snd (collected tokens ! (2 * i))) \<and>
                    replace (ts ! i) = block_text regExp (snd (collected tokens ! (2 * i + 1))))) \<and>
         block_text None s = spacesToTabs s ''    '' \<and>
         (\<exists>ts. extractReadme_ts sys filePath = Inr ts \<and> length ts = n \<and>
            (\<forall>i<n. find (ts ! i) = snd (collected tokens ! (2 * i)) \<and>
                    replace (ts ! i) = snd (collected tokens ! (2 * i + 1))))"
proof (intro conjI)
  from finish_scan_js [OF assms(4,5), of "block_text regExp"]
  show "\<exists>ts. extractReadme sys filePath namespace = Inr ts \<and> length ts = n \<and>
      (\<forall>i<n. find (ts ! i) = block_text regExp (snd (collected tokens ! (2 * i))) \<and>
              replace (ts ! i) = block_text regExp (snd (collected tokens ! (2 * i + 1))))"
    by (auto simp: extractReadme_scan [OF assms(1-3)] rule_at_def)
  show "block_text None s = spacesToTabs s ''    ''"
    by (simp add: block_text_def rewrite_namespace_def)
  from finish_scan_js [OF assms(4,5), of "\<lambda>s. s"]
  show "\<exists>ts. extractReadme_ts sys filePath = Inr ts \<and> length ts = n \<and>
      (\<forall>i<n. find (ts ! i) = snd (collected tokens ! (2 * i)) \<and>
              replace (ts ! i) = snd (collected tokens ! (2 * i + 1)))"
    by (auto simp: extractReadme_ts_scan [OF assms(1,2)] rule_at_def)
qed

theorem C1_extractReadme_witness:
  "(\<exists>ts. extractReadme
       \<lparr>files = [''README.md'' \<mapsto> \<lparr>mtime = None, data = Markdown
          [Heading 1, Code (Some ''js'') ''no rule'', Paragraph [Inline, Link anchor], Block,
           Code (Some ''js'') (''var $acme$widgets$f ='' @ [LF] @ ''    1;''), Heading 4,
           Code (Some ''js'') ''var $acme$widgets$f = 2;'', Heading 2, Code (Some ''elm'') ''x'']\<rparr>],
        clock = 0\<rparr>
       ''README.md'' (Some ''acme/widgets'') = Inr ts \<and> length ts = 1 \<and>
     find (ts ! 0) = ''var $author$project$f ='' @ [LF, TAB] @ ''1;'' \<and>
     replace (ts ! 0) = ''var $author$project$f = 2;'') \<and>
   (\<exists>ts. extractReadme_ts
       \<lparr>files = [''README.md'' \<mapsto> \<lparr>mtime = None, data = Markdown
          [Heading 1, Code (Some ''js'') ''no rule'', Paragraph [Inline, Link anchor], Block,
           Code (Some ''js'') (''var $acme$widgets$f ='' @ [LF] @ ''    1;''), Heading 4,
           Code (Some ''js'') ''var $acme$widgets$f = 2;'', Heading 2, Code (Some ''elm'') ''x'']\<rparr>],
        clock = 0\<rparr>
       ''README.md'' = Inr ts \<and> length ts = 1 \<and>
     find (ts ! 0) = ''var $acme$widgets$f ='' @ [LF] @ ''    1;'' \<and>
     replace (ts ! 0) = ''var $acme$widgets$f = 2;'')"
proof -
  let ?tokens = "[Heading 1, Code (Some ''js'') ''no rule'', Paragraph [Inline, Link anchor], Block,
           Code (Some ''js'') (''var $acme$widgets$f ='' @ [LF] @ ''    1;''), Heading 4,
           Code (Some ''js'') ''var $acme$widgets$f = 2;'', Heading 2, Code (Some ''elm'') ''x'']"
  let ?f = "\<lparr>mtime = None, data = Markdown ?tokens\<rparr>"
  let ?sys = "\<lparr>files = [''README.md'' \<mapsto> ?f], clock = 0\<rparr>"
  let ?r = "RegExp ([BACKSLASH] @ ''$acme'' @ [BACKSLASH] @ ''$widgets'' @ [BACKSLASH] @ ''$'')"
  have c: "collected ?tokens =
      [(Some ''js'', ''var $acme$widgets$f ='' @ [LF] @ ''    1;''),
       (Some ''js'', ''var $acme$widgets$f = 2;'')]"
    by code_simp
  have 1: "files ?sys ''README.md'' = Some ?f"
    by simp
  have 2: "data ?f = Markdown ?tokens"
    by simp
  have 3: "namespace_RegExp (Some ''acme/widgets'') = Inr (Some ?r)"
    by code_simp
  have 4: "\<forall>(lang, s) \<in> set (collected ?tokens). lang = Some ''js''"
    unfolding c by simp
  have 5: "length (collected ?tokens) = 2 * 1"
    unfolding c by simp
  have b0: "block_text (Some ?r) (''var $acme$widgets$f ='' @ [LF] @ ''    1;'') =
      ''var $author$project$f ='' @ [LF, TAB] @ ''1;''"
    by code_simp
  have b1: "block_text (Some ?r) ''var $acme$widgets$f = 2;'' = ''var $author$project$f = 2;''"
    by code_simp
  from C1_extractReadme [OF 1 2 3 4 5] show ?thesis
    unfolding c using b0 b1 by simp
qed


text \<open>
  C6. Let the documentation file lex to some tokens, and let the namespace, when one is
  given, have an author and a project. Then the scan fails if and only if one of the
  collected code blocks is not tagged js or their number is odd, and every failure is one
  of the two errors of the scan: an unexpected code block, or an unmatched pattern. This
  holds in both revisions. A file that does not exist gives no rules and no error.
\<close>

theorem C6_scan_fails:
  assumes "files sys filePath = Some f" and "data f = Markdown tokens"
    and "namespace_RegExp namespace = Inr regExp"
  shows "((\<exists>e. extractReadme sys filePath namespace = Inl e) \<longleftrightarrow>
            (\<exists>(lang, s) \<in> set (collected tokens). lang \<noteq> Some ''js'') \<or>
            odd (length (collected tokens))) \<and>
         (\<forall>e. extractReadme sys filePath namespace = Inl e \<longrightarrow> malformed e) \<and>
         ((\<exists>e. extractReadme_ts sys filePath = Inl e) \<longleftrightarrow>
            (\<exists>(lang, s) \<in> set (collected tokens). lang \<noteq> Some ''js'') \<or>
            odd (length (collected tokens))) \<and>
         (\<forall>e. extractReadme_ts sys filePath = Inl e \<longrightarrow> malformed e) \<and>
         (files sys p = None \<longrightarrow>
            extractReadme sys p namespace = Inr [] \<and> extractReadme_ts sys p = Inr [])"
  unfolding extractReadme_scan [OF assms] extractReadme_ts_scan [OF assms(1,2)]
  using finish_scan_fails [of "block_text regExp" "collected tokens"]
    finish_scan_fails [of "\<lambda>s. s" "collected tokens"]
    finish_scan_malformed [of "block_text regExp" "collected tokens"]
    finish_scan_malformed [of "\<lambda>s. s" "collected tokens"]
  by (auto simp: extractReadme_def extractReadme_ts_def exists_file_def)

theorem C6_scan_fails_witness:
  "(\<exists>e. extractReadme
      \<lparr>files = [''README.md'' \<mapsto> \<lparr>mtime = None, data = Markdown
          [Paragraph [Link anchor], Code (Some ''js'') ''a'', Code (Some ''js'') ''b'',
           Code (Some ''js'') ''c'']\<rparr>], clock = 0\<rparr>
      ''README.md'' None = Inl e) \<and>
   (\<exists>e. extractReadme_ts
      \<lparr>files = [''README.md'' \<mapsto> \<lparr>mtime = None, data = Markdown
          [Paragraph [Link anchor], Code (Some ''js'') ''a'', Code (Some ''js'') ''b'',
           Code (Some ''js'') ''c'']\<rparr>], clock = 0\<rparr>
      ''README.md'' = Inl e)"
proof -
  let ?tokens = "[Paragraph [Link anchor], Code (Some ''js'') ''a'', Code (Some ''js'') ''b'',
           Code (Some ''js'') ''c'']"
  let ?f = "\<lparr>mtime = None, data = Markdown ?tokens\<rparr>"
  let ?sys = "\<lparr>files = [''README.md'' \<mapsto> ?f], clock = 0\<rparr>"
  have 1: "files ?sys ''README.md'' = Some ?f"
    by simp
  have 2: "data ?f = Markdown ?tokens"
    by simp
  have 3: "namespace_RegExp None = Inr None"
    by (simp add: namespace_RegExp_def)
  have "odd (length (collected ?tokens))"
    by code_simp
  with C6_scan_fails [OF 1 2 3] show ?thesis
    by blast
qed






section \<open>Paths and the cache: proofs\<close>



































text \<open>
  The later revision has one artifact for both modes: a forced call in either mode writes
  the file \<^verbatim>\<open>transformations.json\<close>.
\<close>

lemma extractWithCache_one_artifact:
  assumes "extractWithCache sys proj home t True = Inr (ts, sys')"
  shows "files sys' (path_join [proj, ELM_STUFF, ''transformations.json'']) =
     Some \<lparr>mtime = Some (clock sys), data = Rules ts\<rparr>"
  using assms
  by (auto simp: extractWithCache_def Let_def write_rules_def split: sum.splits)


section \<open>The entry point: proofs\<close>

lemma find_append_first:
  "\<exists>x \<in> set xs. P x \<Longrightarrow> List.find P (xs @ ys) = List.find P xs"
  by (induction xs) auto

lemma rule_replacement_last:
  assumes "List.find (\<lambda>t. normalised_find t = sub) (rev given) = Some t" and "sub \<noteq> ''__proto__''"
  shows "rule_replacement config (extracted @ given) sub = replacement_text config t"
proof -
  from find_SomeD [OF assms(1)] have "\<exists>x \<in> set (rev given). normalised_find x = sub"
    by blast
  then have "List.find (\<lambda>t. normalised_find t = sub) (rev given @ rev extracted) =
      List.find (\<lambda>t. normalised_find t = sub) (rev given)"
    by (rule find_append_first)
  with assms show ?thesis
    by (simp add: rule_replacement_def)
qed

text \<open>
  C10, as the claim states it, fails: where a rule extracted from the documentation and a
  rule of the caller have the same \<^verbatim>\<open>find\<close> text, the replacement of the caller is the
  one applied.
\<close>

theorem C10_counterexample:
  "postprocess_transform ''X''
     (elm_config
        (xelm_options \<lparr>cwd = ''/p'', DEFAULT_ELM_HOME = ''/h''\<rparr>
           \<lparr>projectRoot = None, elmHome = None, debug_opt = None,
            transformations_opt = Some [\<lparr>find = ''X'', replace = ''caller''\<rparr>],
            test_opt = None, refresh = None\<rparr>
           [\<lparr>find = ''X'', replace = ''readme''\<rparr>])) = Inr ''caller''"
  by code_simp

text \<open>
  C10, amended. In both revisions \<^verbatim>\<open>xelm\<close> hands to \<^verbatim>\<open>elm\<close> the rules that
  \<^verbatim>\<open>extractWithCache\<close> returned, followed by the rules of the caller in their order, and
  these are the rules of the configuration that \<^verbatim>\<open>transform\<close> gets. The alternation lists
  the escaped \<^verbatim>\<open>find\<close> texts in that order, so that where a text of an extracted rule matches
  at a position, the text matched there is one of an extracted rule. The replacement of a
  matched text is that of the last rule that looks for it: a rule of the caller with the
  same text as an extracted rule replaces it.
\<close>

theorem C10_xelm_rules:
  "xelm elm env sys inputs output options =
     (case extractWithCache sys (or_else (projectRoot options) (cwd env))
             (or_else (elmHome options) (DEFAULT_ELM_HOME env))
             (or_else (test_opt options) False) (or_else (refresh options) False) of
        Inl e \<Rightarrow> Inl e
      | Inr (extracted, sys') \<Rightarrow> Inr (elm sys' inputs output (xelm_options env options extracted))) \<and>
   xelm_ts elm env sys inputs output options =
     (case extractWithCache_ts sys (or_else (projectRoot options) (cwd env))
             (or_else (elmHome options) (DEFAULT_ELM_HOME env))
             (or_else (test_opt options) False) (or_else (refresh options) False) of
        Inl e \<Rightarrow> Inl e
      | Inr (extracted, sys') \<Rightarrow> Inr (elm sys' inputs output (xelm_options env options extracted))) \<and>
   transformations (elm_config (xelm_options env options extracted)) =
     extracted @ or_else (transformations_opt options) [] \<and>
   snd (transform_loop config Map.empty [] (extracted @ given)) =
     map (\<lambda>t. escapeRegExp (normalised_find t)) extracted @
     map (\<lambda>t. escapeRegExp (normalised_find t)) given \<and>
   ((\<exists>t \<in> set extracted. prefix (normalised_find t) s) \<longrightarrow>
      List.find (\<lambda>a. prefix a s) (searched_texts (extracted @ given)) =
      List.find (\<lambda>a. prefix a s) (searched_texts extracted)) \<and>
   (List.find (\<lambda>t. normalised_find t = sub) (rev given) = Some t \<and> sub \<noteq> ''__proto__'' \<longrightarrow>
      rule_replacement config (extracted @ given) sub = replacement_text config t)"
proof (intro conjI impI)
  show "transformations (elm_config (xelm_options env options extracted)) =
      extracted @ or_else (transformations_opt options) []"
    by (simp add: elm_config_def xelm_options_def or_else_def split: option.splits)
  show "snd (transform_loop config Map.empty [] (extracted @ given)) =
      map (\<lambda>t. escapeRegExp (normalised_find t)) extracted @
      map (\<lambda>t. escapeRegExp (normalised_find t)) given"
    by (simp add: transform_loop_eq)
  show "List.find (\<lambda>a. prefix a s) (searched_texts (extracted @ given)) =
      List.find (\<lambda>a. prefix a s) (searched_texts extracted)"
    if "\<exists>t \<in> set extracted. prefix (normalised_find t) s"
  proof -
    from that have "extracted \<noteq> []" "\<exists>a \<in> set (map normalised_find extracted). prefix a s"
      by auto
    then show ?thesis
      using find_append_first [of "map normalised_find extracted" "\<lambda>a. prefix a s"
          "map normalised_find given"]
      by (simp add: searched_texts_def)
  qed
  show "rule_replacement config (extracted @ given) sub = replacement_text config t"
    if "List.find (\<lambda>t. normalised_find t = sub) (rev given) = Some t \<and> sub \<noteq> ''__proto__''"
    using that rule_replacement_last by blast
qed (simp_all add: xelm_def xelm_ts_def)

theorem C10_xelm_rules_witness:
  "transformations
     (elm_config
        (xelm_options \<lparr>cwd = ''/p'', DEFAULT_ELM_HOME = ''/h''\<rparr>
           \<lparr>projectRoot = None, elmHome = None, debug_opt = None,
            transformations_opt = Some [\<lparr>find = ''ab'', replace = ''caller''\<rparr>],
            test_opt = None, refresh = None\<rparr>
           [\<lparr>find = ''a'', replace = ''readme''\<rparr>])) =
     [\<lparr>find = ''a'', replace = ''readme''\<rparr>, \<lparr>find = ''ab'', replace = ''caller''\<rparr>] \<and>
   List.find (\<lambda>a. prefix a ''abc'')
     (searched_texts ([\<lparr>find = ''a'', replace = ''readme''\<rparr>] @ [\<lparr>find = ''ab'', replace = ''caller''\<rparr>])) =
     Some ''a'' \<and>
   rule_replacement \<lparr>debug = False, test = False, transformations = []\<rparr>
     ([\<lparr>find = ''X'', replace = ''readme''\<rparr>] @ [\<lparr>find = ''X'', replace = ''caller''\<rparr>]) ''X'' =
     ''caller''"
proof -
  let ?env = "\<lparr>cwd = ''/p'', DEFAULT_ELM_HOME = ''/h''\<rparr>"
  let ?options = "\<lparr>projectRoot = None, elmHome = None, debug_opt = None,
            transformations_opt = Some [\<lparr>find = ''ab'', replace = ''caller''\<rparr>],
            test_opt = None, refresh = None\<rparr>"
  let ?config = "\<lparr>debug = False, test = False, transformations = []\<rparr>"
  note C10 = C10_xelm_rules [of "\<lambda>_ _ _ _. ()" ?env "\<lparr>files = Map.empty, clock = 0\<rparr>" "[]" "[]"
      ?options]
  have 1: "transformations (elm_config (xelm_options ?env ?options [\<lparr>find = ''a'', replace = ''readme''\<rparr>])) =
      [\<lparr>find = ''a'', replace = ''readme''\<rparr>, \<lparr>find = ''ab'', replace = ''caller''\<rparr>]"
    using C10 [of "[\<lparr>find = ''a'', replace = ''readme''\<rparr>]" ?config "[]" "[]" "[]"
        "\<lparr>find = [], replace = []\<rparr>"]
    by (simp add: or_else_def)
  have p: "\<exists>t \<in> set [\<lparr>find = ''a'', replace = ''readme''\<rparr>]. prefix (normalised_find t) ''abc''"
    by code_simp
  have f: "List.find (\<lambda>a. prefix a ''abc'') (searched_texts [\<lparr>find = ''a'', replace = ''readme''\<rparr>]) =
      Some ''a''"
    by code_simp
  have 2: "List.find (\<lambda>a. prefix a ''abc'')
     (searched_texts ([\<lparr>find = ''a'', replace = ''readme''\<rparr>] @ [\<lparr>find = ''ab'', replace = ''caller''\<rparr>])) =
     Some ''a''"
    using C10 [of "[\<lparr>find = ''a'', replace = ''readme''\<rparr>]" ?config
        "[\<lparr>find = ''ab'', replace = ''caller''\<rparr>]" "''abc''" "[]" "\<lparr>find = [], replace = []\<rparr>"] p f
    by simp
  have l: "List.find (\<lambda>t. normalised_find t = ''X'') (rev [\<lparr>find = ''X'', replace = ''caller''\<rparr>]) =
      Some \<lparr>find = ''X'', replace = ''caller''\<rparr>"
    by code_simp
  have r: "replacement_text ?config \<lparr>find = ''X'', replace = ''caller''\<rparr> = ''caller''"
    by code_simp
  have 3: "rule_replacement ?config
     ([\<lparr>find = ''X'', replace = ''readme''\<rparr>] @ [\<lparr>find = ''X'', replace = ''caller''\<rparr>]) ''X'' = ''caller''"
    using C10 [of "[\<lparr>find = ''X'', replace = ''readme''\<rparr>]" ?config
        "[\<lparr>find = ''X'', replace = ''caller''\<rparr>]" "[]" "''X''" "\<lparr>find = ''X'', replace = ''caller''\<rparr>"] l r
    by simp
  from 1 2 3 show ?thesis
    by (intro conjI)
qed


end
